theory Spec2Isabelle
  imports Main
begin

section \<open>Strings and numbers of the JavaScript runtime\<close>

text \<open>
  The two analyzers read response headers that axios takes from Node's HTTP parser.
  Node decodes a header value byte by byte (ISO-8859-1), so a header value is a sequence
  of code units below 256: the type \<open>string\<close>, whose characters are bytes. The length of
  a JavaScript string counts code units, as \<open>length\<close> does here.

  A JavaScript number is a double. Every natural number below \<open>2 ^ 53\<close> is a double, and
  on such numbers \<open>===\<close>, \<open><\<close>, \<open>Math.floor (a / b)\<close> and the conversion to a decimal
  string are exact: there the numbers of the code are the natural numbers of this model.
  A \<open>max-age\<close> whose digits denote \<open>2 ^ 53\<close> or more is read by \<open>parseInt\<close> as the nearest
  double, \<open>Infinity\<close> from 309 digits on, and a number of \<open>10 ^ 21\<close> or more prints with
  an exponent; the model has the number itself there. The comparisons with 0 and 31536000
  come out the same for that double and for the number, so that severity, status and
  issues of the model are those of the code on every header value; a statement that
  equates \<open>maxAge\<close> or \<open>maxAgeDays\<close> with the number that the digits denote is made below
  \<open>2 ^ 53\<close> only.
\<close>

definition isWhiteSpace :: "char \<Rightarrow> bool" where
  \<comment> \<open>WhiteSpace and LineTerminator code points below 256: TAB, LF, VT, FF, CR, SP, NBSP\<close>
  "isWhiteSpace c =
     (c \<in> set [CHR 0x09, CHR 0x0A, CHR 0x0B, CHR 0x0C, CHR 0x0D, CHR 0x20, CHR 0xA0])"

definition trim :: "string \<Rightarrow> string" where
  \<comment> \<open>\<open>String.prototype.trim\<close>\<close>
  "trim s = rev (dropWhile isWhiteSpace (rev (dropWhile isWhiteSpace s)))"

definition toLowerCase_char :: "char \<Rightarrow> char" where
  \<comment> \<open>lower case of a code point below 256: A-Z, and the capital letters 0xC0-0xDE but
      the multiplication sign 0xD7, move up by 32\<close>
  "toLowerCase_char c =
     (let n = (of_char c :: nat)
      in if (65 \<le> n \<and> n \<le> 90) \<or> (192 \<le> n \<and> n \<le> 222 \<and> n \<noteq> 215)
         then char_of (n + 32) else c)"

definition toLowerCase :: "string \<Rightarrow> string" where
  \<comment> \<open>\<open>String.prototype.toLowerCase\<close>\<close>
  "toLowerCase s = map toLowerCase_char s"

definition startsWith :: "string \<Rightarrow> string \<Rightarrow> bool" where
  \<comment> \<open>\<open>s.startsWith(p)\<close>\<close>
  "startsWith s p = (take (length p) s = p)"

fun split :: "char \<Rightarrow> string \<Rightarrow> string list" where
  \<comment> \<open>\<open>s.split(sep)\<close> for a separator of one character; the empty string gives \<open>['']\<close>\<close>
  "split sep [] = [[]]"
| "split sep (c # cs) =
     (if c = sep then [] # split sep cs
      else (case split sep cs of [] \<Rightarrow> [[c]] | p # ps \<Rightarrow> (c # p) # ps))"

declare split.simps [simp del]

definition digitChar :: "nat \<Rightarrow> char" where
  "digitChar d = ''0123456789'' ! d"

fun showNat :: "nat \<Rightarrow> string" where
  \<comment> \<open>a number in a template literal: its decimal digits, as the code prints a number
      below \<open>10 ^ 21\<close> (from there on it prints an exponent)\<close>
  "showNat n = (if n < 10 then [digitChar n] else showNat (n div 10) @ [digitChar (n mod 10)])"

declare showNat.simps [simp del]

definition isDigit :: "char \<Rightarrow> bool" where
  \<comment> \<open>the class \<open>\d\<close> of a regular expression without the \<open>u\<close> flag\<close>
  "isDigit c = (c \<in> set ''0123456789'')"

definition digitValue :: "char \<Rightarrow> nat" where
  \<comment> \<open>the value of a decimal digit\<close>
  "digitValue c = (of_char c :: nat) - 48"

definition parseInt :: "string \<Rightarrow> nat" where
  \<comment> \<open>\<open>parseInt\<close> on the capture of \<open>(\d+)\<close>, a non-empty string of decimal digits: the
      number they denote, which is the code's value when it is below \<open>2 ^ 53\<close> (beyond,
      the code has the nearest double)\<close>
  "parseInt ds = foldl (\<lambda>n c. 10 * n + digitValue c) 0 ds"

definition canonCode :: "nat \<Rightarrow> nat" where
  \<comment> \<open>the code point a code unit below 256 is compared by under the flag \<open>i\<close> (without
      \<open>u\<close>): the upper case of the character when that is one code unit, and never an ASCII
      code point for a character that is not ASCII. a-z and 0xE0-0xFE but the division sign
      0xF7 move down by 32, 0xFF goes to U+0178 and the micro sign 0xB5 to U+039C; sharp s
      (0xDF), whose upper case is two letters, stays.\<close>
  "canonCode n =
     (if (97 \<le> n \<and> n \<le> 122) \<or> (224 \<le> n \<and> n \<le> 254 \<and> n \<noteq> 247) then n - 32
      else if n = 255 then 376
      else if n = 181 then 924
      else n)"

definition Canonicalize :: "char \<Rightarrow> nat" where
  "Canonicalize c = canonCode (of_char c)"

fun ciPrefix :: "string \<Rightarrow> string \<Rightarrow> bool" where
  \<comment> \<open>the literal pattern \<open>pat\<close> under the flag \<open>i\<close> matches at the start of the string\<close>
  "ciPrefix [] s = True"
| "ciPrefix (p # ps) [] = False"
| "ciPrefix (p # ps) (c # cs) = (Canonicalize p = Canonicalize c \<and> ciPrefix ps cs)"

fun regexTest :: "string \<Rightarrow> string \<Rightarrow> bool" where
  \<comment> \<open>\<open>/pat/i.test(s)\<close> for a literal pattern: a match at some position of \<open>s\<close>\<close>
  "regexTest pat [] = ciPrefix pat []"
| "regexTest pat (c # cs) = (ciPrefix pat (c # cs) \<or> regexTest pat cs)"

definition maxAgeAt :: "string \<Rightarrow> string option" where
  \<comment> \<open>\<open>/max-age=(\d+)/i\<close> tried at the start of the string: the capture, the longest run
      of digits after the literal (the quantifier is greedy), when there is a match\<close>
  "maxAgeAt s =
     (if ciPrefix ''max-age='' s
      then (case takeWhile isDigit (drop 8 s) of [] \<Rightarrow> None | d # ds \<Rightarrow> Some (d # ds))
      else None)"

fun maxAgeMatch :: "string \<Rightarrow> string option" where
  \<comment> \<open>\<open>s.match(/max-age=(\d+)/i)\<close>: group 1 of the leftmost match, \<open>None\<close> for \<open>null\<close>\<close>
  "maxAgeMatch [] = None"
| "maxAgeMatch (c # cs) =
     (case maxAgeAt (c # cs) of Some g \<Rightarrow> Some g | None \<Rightarrow> maxAgeMatch cs)"

fun forEach :: "('a \<Rightarrow> nat \<Rightarrow> 's \<Rightarrow> 's) \<Rightarrow> 'a list \<Rightarrow> nat \<Rightarrow> 's \<Rightarrow> 's" where
  \<comment> \<open>\<open>xs.forEach((x, index) => ...)\<close> from index \<open>i\<close> on; the callback updates the
      variables it closes over, here the state \<open>s\<close>\<close>
  "forEach f [] i s = s"
| "forEach f (x # xs) i s = forEach f xs (Suc i) (f x i s)"

section \<open>Responses and findings\<close>

text \<open>
  \<open>axios.get\<close> resolves to a response or rejects with an error that has a message. Of the
  response the analyzers read the headers only. Node gives the \<open>set-cookie\<close> header as an
  array of strings, one for each occurrence, and every other header as one string; a header
  that the response does not have is \<open>undefined\<close>, here \<open>None\<close>.
\<close>

record response =
  set_cookie :: "string list option"
  headers :: "string \<rightharpoonup> string"

type_synonym axios_get = "string \<Rightarrow> string + response"

text \<open>
  The objects the analyzers return have the keys \<open>success\<close>, \<open>domain\<close>, \<open>severity\<close>,
  \<open>status\<close> and \<open>message\<close> on every path; a key that a path leaves out is \<open>None\<close>.
\<close>

record finding =
  success :: bool
  domain :: string
  severity :: string
  status :: string
  message :: string
  error :: "string option"

record cookie_issue =
  name :: string
  issues :: "string list"
  raw :: string

record cookie_record =
  name :: string
  secure :: bool
  httpOnly :: bool
  sameSite :: bool

record cookie_finding = finding +
  cookieCount :: "nat option"
  cookies :: "cookie_record list option"
  issues :: "cookie_issue list option"
  issueCount :: "nat option"

record hsts_details =
  header :: "string option"
  maxAge :: "nat option"
  maxAgeDays :: "nat option"
  includeSubDomains :: bool
  preload :: bool
  issues :: "string list option"

record hsts_finding = finding +
  enabled :: bool
  details :: hsts_details

definition normalizeUrl :: "string \<Rightarrow> string" where
  \<comment> \<open>lines 11-14 of both analyzers\<close>
  "normalizeUrl dmn =
     (if \<not> startsWith dmn ''http://'' \<and> \<not> startsWith dmn ''https://''
      then ''https://'' @ dmn else dmn)"

section \<open>checkCookies\<close>

definition cookieParts :: "string \<Rightarrow> string list" where
  "cookieParts cookieStr = map trim (split CHR '';'' cookieStr)"

definition cookieName :: "string \<Rightarrow> string" where
  \<comment> \<open>\<open>const [nameValue] = cookieParts; const [name] = nameValue.split('=')\<close>;
      \<open>split\<close> never gives the empty array\<close>
  "cookieName cookieStr = hd (split CHR ''='' (hd (cookieParts cookieStr)))"

definition hasSecure :: "string \<Rightarrow> bool" where
  "hasSecure cookieStr = list_ex (\<lambda>part. toLowerCase part = ''secure'') (cookieParts cookieStr)"

definition hasHttpOnly :: "string \<Rightarrow> bool" where
  "hasHttpOnly cookieStr =
     list_ex (\<lambda>part. toLowerCase part = ''httponly'') (cookieParts cookieStr)"

definition hasSameSite :: "string \<Rightarrow> bool" where
  "hasSameSite cookieStr =
     list_ex (\<lambda>part. startsWith (toLowerCase part) ''samesite'') (cookieParts cookieStr)"

definition cookieIssues :: "string \<Rightarrow> string list" where
  "cookieIssues cookieStr =
     (if \<not> hasSecure cookieStr then [''Missing Secure flag''] else [])
     @ (if \<not> hasHttpOnly cookieStr then [''Missing HttpOnly flag''] else [])
     @ (if \<not> hasSameSite cookieStr then [''Missing SameSite attribute''] else [])"

definition displayName :: "string \<Rightarrow> nat \<Rightarrow> string" where
  \<comment> \<open>\<open>name || `Cookie ${index + 1}`\<close>: the empty string is falsy\<close>
  "displayName cookieStr index =
     (if cookieName cookieStr = [] then ''Cookie '' @ showNat (index + 1)
      else cookieName cookieStr)"

definition rawOf :: "string \<Rightarrow> string" where
  \<comment> \<open>\<open>cookieStr.substring(0, 100) + (cookieStr.length > 100 ? '...' : '')\<close>\<close>
  "rawOf cookieStr = take 100 cookieStr @ (if length cookieStr > 100 then ''...'' else [])"

definition issueEntry :: "string \<Rightarrow> nat \<Rightarrow> cookie_issue" where
  \<comment> \<open>the object pushed to \<open>issues\<close>, lines 64-68\<close>
  "issueEntry cookieStr index =
     \<lparr>cookie_issue.name = displayName cookieStr index,
      cookie_issue.issues = cookieIssues cookieStr,
      raw = rawOf cookieStr\<rparr>"

definition cookieRecord :: "string \<Rightarrow> nat \<Rightarrow> cookie_record" where
  \<comment> \<open>the object pushed to \<open>cookies\<close>, lines 71-76\<close>
  "cookieRecord cookieStr index =
     \<lparr>cookie_record.name = displayName cookieStr index,
      secure = hasSecure cookieStr,
      httpOnly = hasHttpOnly cookieStr,
      sameSite = hasSameSite cookieStr\<rparr>"

definition cookieStep ::
  "string \<Rightarrow> nat \<Rightarrow> cookie_issue list \<times> cookie_record list
     \<Rightarrow> cookie_issue list \<times> cookie_record list" where
  \<comment> \<open>the callback of \<open>cookieHeaders.forEach\<close>, lines 42-77, on the arrays \<open>issues\<close> and
      \<open>cookies\<close>\<close>
  "cookieStep cookieStr index acc =
     ((if length (cookieIssues cookieStr) > 0
       then fst acc @ [issueEntry cookieStr index]
       else fst acc),
      snd acc @ [cookieRecord cookieStr index])"

definition cookieHeadersOf :: "response \<Rightarrow> string list" where
  \<comment> \<open>line 25: \<open>response.headers['set-cookie'] || []\<close>\<close>
  "cookieHeadersOf resp = (case set_cookie resp of None \<Rightarrow> [] | Some hs \<Rightarrow> hs)"

definition cookieSeverity :: "cookie_issue list \<Rightarrow> nat \<Rightarrow> string \<times> string" where
  \<comment> \<open>lines 79-92: \<open>severity\<close> and \<open>status\<close> from \<open>issues\<close> and \<open>cookieHeaders.length\<close>\<close>
  "cookieSeverity iss n =
     (if length iss > 0
      then (if length (filter (\<lambda>i. ''Missing Secure flag'' \<in> set (cookie_issue.issues i)) iss) = n
            then (''critical'', ''Critical Security Issues'')
            else (''warning'', ''Security Issues Found''))
      else (''ok'', ''All Cookies Secure''))"

definition checkCookies :: "axios_get \<Rightarrow> string \<Rightarrow> cookie_finding" where
  "checkCookies get dmn =
     (case get (normalizeUrl dmn) of
        Inl error_message \<Rightarrow>
          \<lparr>success = False, domain = dmn, severity = ''error'', status = ''Error'',
           message = ''Failed to check cookies: '' @ error_message,
           error = Some error_message,
           cookieCount = None, cookies = None, cookie_finding.issues = None,
           issueCount = None\<rparr>
      | Inr resp \<Rightarrow>
          (let cookieHeaders = cookieHeadersOf resp
           in if length cookieHeaders = 0
              then \<lparr>success = True, domain = dmn, severity = ''ok'',
                    status = ''No Cookies Set'',
                    message = ''No cookies found on this domain'', error = None,
                    cookieCount = Some 0, cookies = None, cookie_finding.issues = Some [],
                    issueCount = None\<rparr>
              else (let acc = forEach cookieStep cookieHeaders 0 ([], []);
                        iss = fst acc;
                        sev = cookieSeverity iss (length cookieHeaders)
                    in \<lparr>success = True, domain = dmn, severity = fst sev, status = snd sev,
                        message =
                          (if length iss > 0
                           then ''Found '' @ showNat (length iss)
                                @ '' cookie(s) with security issues out of ''
                                @ showNat (length cookieHeaders) @ '' total''
                           else ''All '' @ showNat (length cookieHeaders)
                                @ '' cookies are properly secured''),
                        error = None,
                        cookieCount = Some (length cookieHeaders), cookies = Some (snd acc),
                        cookie_finding.issues = Some iss,
                        issueCount = Some (length iss)\<rparr>)))"

section \<open>checkHSTS\<close>

definition parseMaxAge :: "string \<Rightarrow> nat" where
  \<comment> \<open>lines 45-46: \<open>maxAgeMatch ? parseInt(maxAgeMatch[1]) : 0\<close>\<close>
  "parseMaxAge hstsHeader =
     (case maxAgeMatch hstsHeader of Some g \<Rightarrow> parseInt g | None \<Rightarrow> 0)"

definition maxAgeTier :: "nat \<Rightarrow> string \<times> string \<times> string list" where
  \<comment> \<open>lines 54-66: \<open>severity\<close>, \<open>status\<close> and \<open>issues\<close> after the test of \<open>maxAge\<close>\<close>
  "maxAgeTier a =
     (if a = 0
      then (''critical'', ''HSTS Misconfigured'', [''max-age is 0 (effectively disabled)''])
      else if a < 31536000
      then (''warning'', ''HSTS Weak Configuration'',
            [''max-age is '' @ showNat (a div 86400)
             @ '' days (recommended: at least 365 days)''])
      else (''ok'', ''HSTS Enabled'', []))"

definition subDomainsRule ::
  "bool \<Rightarrow> string \<times> string \<times> string list \<Rightarrow> string \<times> string \<times> string list" where
  \<comment> \<open>lines 68-71\<close>
  "subDomainsRule inc st =
     (case st of (sev, stat, iss) \<Rightarrow>
        if \<not> inc
        then ((if sev = ''ok'' then ''warning'' else sev), stat,
              iss @ [''includeSubDomains directive not set''])
        else (sev, stat, iss))"

definition checkHSTS :: "axios_get \<Rightarrow> string \<Rightarrow> hsts_finding" where
  "checkHSTS get dmn =
     (case get (normalizeUrl dmn) of
        Inl error_message \<Rightarrow>
          \<lparr>success = False, domain = dmn, severity = ''error'', status = ''Error'',
           message = ''Failed to check HSTS: '' @ error_message,
           error = Some error_message, enabled = False,
           details = \<lparr>header = None, maxAge = None, maxAgeDays = None,
                      includeSubDomains = False, preload = False,
                      hsts_details.issues = None\<rparr>\<rparr>
      | Inr resp \<Rightarrow>
          (case headers resp ''strict-transport-security'' of
             None \<Rightarrow>
               \<lparr>success = True, domain = dmn, severity = ''critical'',
                status = ''HSTS Not Enabled'',
                message = ''HTTP Strict Transport Security policy is not enabled. This allows potential man-in-the-middle attacks.'',
                error = None, enabled = False,
                details = \<lparr>header = None, maxAge = None, maxAgeDays = None,
                           includeSubDomains = False, preload = False,
                           hsts_details.issues = None\<rparr>\<rparr>
           | Some hstsHeader \<Rightarrow>
               if hstsHeader = []
               then \<lparr>success = True, domain = dmn, severity = ''critical'',
                     status = ''HSTS Not Enabled'',
                     message = ''HTTP Strict Transport Security policy is not enabled. This allows potential man-in-the-middle attacks.'',
                     error = None, enabled = False,
                     details = \<lparr>header = None, maxAge = None, maxAgeDays = None,
                                includeSubDomains = False, preload = False,
                                hsts_details.issues = None\<rparr>\<rparr>
               else (let a = parseMaxAge hstsHeader;
                         inc = regexTest ''includeSubDomains'' hstsHeader;
                         pre = regexTest ''preload'' hstsHeader;
                         days = a div 86400;
                         st = subDomainsRule inc (maxAgeTier a);
                         iss = snd (snd st)
                     in \<lparr>success = True, domain = dmn, severity = fst st,
                         status = fst (snd st),
                         message =
                           (if length iss > 0
                            then ''HSTS is enabled but has '' @ showNat (length iss)
                                 @ '' issue(s)''
                            else ''HSTS is properly configured (max-age: '' @ showNat days
                                 @ '' days)''),
                         error = None, enabled = True,
                         details = \<lparr>header = Some hstsHeader, maxAge = Some a,
                                    maxAgeDays = Some days, includeSubDomains = inc,
                                    preload = pre, hsts_details.issues = Some iss\<rparr>\<rparr>)))"

section \<open>The specification's wording\<close>

text \<open>
  The attribute scan as the specification words it: the segments after the first
  (\<open>name=value\<close>) segment are scanned, the first one is not an attribute.
\<close>

definition attributeSegments :: "string \<Rightarrow> string list" where
  "attributeSegments cookieStr = tl (cookieParts cookieStr)"

definition secure_spec :: "string \<Rightarrow> bool" where
  "secure_spec cookieStr =
     list_ex (\<lambda>part. toLowerCase part = ''secure'') (attributeSegments cookieStr)"

definition httpOnly_spec :: "string \<Rightarrow> bool" where
  "httpOnly_spec cookieStr =
     list_ex (\<lambda>part. toLowerCase part = ''httponly'') (attributeSegments cookieStr)"

definition sameSite_spec :: "string \<Rightarrow> bool" where
  "sameSite_spec cookieStr =
     list_ex (\<lambda>part. startsWith (toLowerCase part) ''samesite'') (attributeSegments cookieStr)"

text \<open>
  The \<open>max-age\<close> directive as the specification words it: \<open>max-age=<digits>\<close> in any
  letter case somewhere in the header value; the value is the number that the digits
  of the first such place denote, and 0 when there is no such place.
\<close>

definition isMaxAgeDirective :: "string \<Rightarrow> bool" where
  \<comment> \<open>the string begins with \<open>max-age=\<close>, in any letter case, and a digit\<close>
  "isMaxAgeDirective s =
     (8 < length s \<and> toLowerCase (take 8 s) = ''max-age='' \<and> isDigit (s ! 8))"

fun decimalValue :: "string \<Rightarrow> nat" where
  \<comment> \<open>the number a string of digits denotes\<close>
  "decimalValue [] = 0"
| "decimalValue (d # ds) = digitValue d * 10 ^ length ds + decimalValue ds"

definition maxAgeSeconds_spec :: "string \<Rightarrow> nat" where
  "maxAgeSeconds_spec h =
     (case filter (\<lambda>i. isMaxAgeDirective (drop i h)) [0..<length h] of
        [] \<Rightarrow> 0
      | i # _ \<Rightarrow> decimalValue (takeWhile isDigit (drop 8 (drop i h))))"

section \<open>Collaborators for concrete runs\<close>

definition respond :: "response \<Rightarrow> axios_get" where
  \<comment> \<open>a fetch that resolves to the given response\<close>
  "respond resp = (\<lambda>url. Inr resp)"

definition reject :: "string \<Rightarrow> axios_get" where
  \<comment> \<open>a fetch that rejects with an error of the given message\<close>
  "reject error_message = (\<lambda>url. Inl error_message)"

definition hstsResponse :: "string \<Rightarrow> response" where
  "hstsResponse v =
     \<lparr>set_cookie = None, headers = [''strict-transport-security'' \<mapsto> v]\<rparr>"

definition cookieResponse :: "string list \<Rightarrow> response" where
  "cookieResponse cs = \<lparr>set_cookie = Some cs, headers = Map.empty\<rparr>"

definition plainResponse :: response where
  \<comment> \<open>a response with cookies and a content type, and no HSTS header\<close>
  "plainResponse =
     \<lparr>set_cookie = Some [''sid=1; Secure''],
      headers = [''content-type'' \<mapsto> ''text/html'', ''server'' \<mapsto> ''nginx'']\<rparr>"

section \<open>The loop over the cookie headers\<close>

lemma split_nonempty: "split sep s \<noteq> []"
  by (induction s) (simp_all add: split.simps split: list.splits)

lemma fst_cookieStep:
  "fst (cookieStep c k acc) = fst acc @ (if cookieIssues c = [] then [] else [issueEntry c k])"
  by (simp add: cookieStep_def)

lemma snd_cookieStep: "snd (cookieStep c k acc) = snd acc @ [cookieRecord c k]"
  by (simp add: cookieStep_def)

lemma forEach_cookieStep:
  "forEach cookieStep hs i acc =
     (fst acc @ map (\<lambda>(k, c). issueEntry c k)
                  (filter (\<lambda>(k, c). cookieIssues c \<noteq> []) (enumerate i hs)),
      snd acc @ map (\<lambda>(k, c). cookieRecord c k) (enumerate i hs))"
proof (induction hs arbitrary: i acc)
  case Nil
  show ?case by simp
next
  case (Cons c cs)
  show ?case
    by (simp add: Cons.IH fst_cookieStep snd_cookieStep)
qed

lemma length_filter_enumerate:
  "length (filter (\<lambda>(k, c). P c) (enumerate i hs)) = length (filter P hs)"
  by (induction hs arbitrary: i) auto

lemma map_filter_enumerate:
  "map (\<lambda>(k, c). f c) (filter (\<lambda>(k, c). P c) (enumerate i hs)) = map f (filter P hs)"
  by (induction hs arbitrary: i) auto

lemma missingSecure_iff:
  "''Missing Secure flag'' \<in> set (cookieIssues c) \<longleftrightarrow> \<not> hasSecure c"
  by (simp add: cookieIssues_def)

lemma cookieIssues_empty_iff:
  "cookieIssues c = [] \<longleftrightarrow> hasSecure c \<and> hasHttpOnly c \<and> hasSameSite c"
  by (simp add: cookieIssues_def)

lemma length_issues:
  "length (fst (forEach cookieStep hs 0 ([], [])))
     = length (filter (\<lambda>c. cookieIssues c \<noteq> []) hs)"
  by (simp add: forEach_cookieStep length_filter_enumerate)

lemma noSecure_count:
  "length (filter (\<lambda>i. ''Missing Secure flag'' \<in> set (cookie_issue.issues i))
             (fst (forEach cookieStep hs 0 ([], []))))
     = length (filter (\<lambda>c. \<not> hasSecure c) hs)"
proof -
  have "length (filter (\<lambda>i. ''Missing Secure flag'' \<in> set (cookie_issue.issues i))
          (map (\<lambda>(k, c). issueEntry c k)
             (filter (\<lambda>(k, c). cookieIssues c \<noteq> []) (enumerate i hs))))
        = length (filter (\<lambda>c. \<not> hasSecure c) hs)" for i
    by (induction hs arbitrary: i)
      (auto simp: issueEntry_def missingSecure_iff cookieIssues_empty_iff)
  then show ?thesis by (simp add: forEach_cookieStep)
qed

lemma cookieSeverity_forEach:
  assumes "hs \<noteq> []"
  shows "cookieSeverity (fst (forEach cookieStep hs 0 ([], []))) (length hs) =
     (if \<forall>c\<in>set hs. hasSecure c \<and> hasHttpOnly c \<and> hasSameSite c
      then (''ok'', ''All Cookies Secure'')
      else if \<forall>c\<in>set hs. \<not> hasSecure c then (''critical'', ''Critical Security Issues'')
      else (''warning'', ''Security Issues Found''))"
proof -
  have a: "length (filter (\<lambda>c. cookieIssues c \<noteq> []) hs) > 0
     \<longleftrightarrow> \<not> (\<forall>c\<in>set hs. hasSecure c \<and> hasHttpOnly c \<and> hasSameSite c)"
    by (auto simp: filter_empty_conv cookieIssues_empty_iff)
  have b: "length (filter (\<lambda>c. \<not> hasSecure c) hs) = length hs
     \<longleftrightarrow> (\<forall>c\<in>set hs. \<not> hasSecure c)"
    by (metis filter_True filter_id_conv length_filter_less less_irrefl_nat)
  show ?thesis
    unfolding cookieSeverity_def noSecure_count length_issues using a b by auto
qed

lemma checkCookies_none:
  assumes "get (normalizeUrl dmn) = Inr resp" and "cookieHeadersOf resp = []"
  shows "checkCookies get dmn =
    \<lparr>success = True, domain = dmn, severity = ''ok'', status = ''No Cookies Set'',
     message = ''No cookies found on this domain'', error = None,
     cookieCount = Some 0, cookies = None, cookie_finding.issues = Some [],
     issueCount = None\<rparr>"
  using assms by (simp add: checkCookies_def)

lemma checkCookies_some:
  assumes "get (normalizeUrl dmn) = Inr resp" and "cookieHeadersOf resp \<noteq> []"
  shows "severity (checkCookies get dmn)
           = fst (cookieSeverity (fst (forEach cookieStep (cookieHeadersOf resp) 0 ([], [])))
                    (length (cookieHeadersOf resp)))"
    and "status (checkCookies get dmn)
           = snd (cookieSeverity (fst (forEach cookieStep (cookieHeadersOf resp) 0 ([], [])))
                    (length (cookieHeadersOf resp)))"
    and "cookieCount (checkCookies get dmn) = Some (length (cookieHeadersOf resp))"
    and "cookies (checkCookies get dmn)
           = Some (snd (forEach cookieStep (cookieHeadersOf resp) 0 ([], [])))"
    and "cookie_finding.issues (checkCookies get dmn)
           = Some (fst (forEach cookieStep (cookieHeadersOf resp) 0 ([], [])))"
  using assms by (simp_all add: checkCookies_def Let_def)

section \<open>The branches of checkHSTS\<close>

lemma checkHSTS_present:
  assumes "get (normalizeUrl dmn) = Inr resp"
    and "headers resp ''strict-transport-security'' = Some h" and "h \<noteq> []"
  shows "severity (checkHSTS get dmn)
           = fst (subDomainsRule (regexTest ''includeSubDomains'' h) (maxAgeTier (parseMaxAge h)))"
    and "status (checkHSTS get dmn)
           = fst (snd (subDomainsRule (regexTest ''includeSubDomains'' h)
                         (maxAgeTier (parseMaxAge h))))"
    and "hsts_details.issues (details (checkHSTS get dmn))
           = Some (snd (snd (subDomainsRule (regexTest ''includeSubDomains'' h)
                               (maxAgeTier (parseMaxAge h)))))"
    and "maxAge (details (checkHSTS get dmn)) = Some (parseMaxAge h)"
    and "maxAgeDays (details (checkHSTS get dmn)) = Some (parseMaxAge h div 86400)"
    and "includeSubDomains (details (checkHSTS get dmn)) = regexTest ''includeSubDomains'' h"
    and "preload (details (checkHSTS get dmn)) = regexTest ''preload'' h"
    and "header (details (checkHSTS get dmn)) = Some h"
    and "enabled (checkHSTS get dmn)"
    and "success (checkHSTS get dmn)"
  using assms by (simp_all add: checkHSTS_def Let_def)

lemma checkHSTS_message:
  assumes "get (normalizeUrl dmn) = Inr resp"
    and "headers resp ''strict-transport-security'' = Some h" and "h \<noteq> []"
  shows "message (checkHSTS get dmn) =
     (if length (snd (snd (subDomainsRule (regexTest ''includeSubDomains'' h)
                             (maxAgeTier (parseMaxAge h))))) > 0
      then ''HSTS is enabled but has ''
           @ showNat (length (snd (snd (subDomainsRule (regexTest ''includeSubDomains'' h)
                                          (maxAgeTier (parseMaxAge h))))))
           @ '' issue(s)''
      else ''HSTS is properly configured (max-age: '' @ showNat (parseMaxAge h div 86400)
           @ '' days)'')"
  using assms by (simp add: checkHSTS_def Let_def)

lemma subDomainsRule_status: "fst (snd (subDomainsRule inc st)) = fst (snd st)"
  by (simp add: subDomainsRule_def split: prod.splits)

lemma subDomainsRule_issues:
  "snd (snd (subDomainsRule inc st))
     = snd (snd st) @ (if inc then [] else [''includeSubDomains directive not set''])"
  by (simp add: subDomainsRule_def split: prod.splits)

lemma subDomainsRule_severity:
  "fst (subDomainsRule inc st) = (if \<not> inc \<and> fst st = ''ok'' then ''warning'' else fst st)"
  by (simp add: subDomainsRule_def split: prod.splits)

section \<open>Concrete header values\<close>

lemma hstsResponse_header:
  "headers (hstsResponse v) ''strict-transport-security'' = Some v"
  by (simp add: hstsResponse_def)

lemma respond_resolves: "respond resp (normalizeUrl dmn) = Inr resp"
  by (simp add: respond_def)

lemma reject_rejects: "reject m (normalizeUrl dmn) = Inl m"
  by (simp add: reject_def)

lemma parseMaxAge_zero: "parseMaxAge ''max-age=0; includeSubDomains'' = 0"
  by (simp add: parseMaxAge_def maxAgeAt_def Canonicalize_def canonCode_def isDigit_def parseInt_def
      digitValue_def)

lemma parseMaxAge_day: "parseMaxAge ''max-age=86400'' = 86400"
  by (simp add: parseMaxAge_def maxAgeAt_def Canonicalize_def canonCode_def isDigit_def parseInt_def
      digitValue_def)

lemma parseMaxAge_year: "parseMaxAge ''max-age=31536000; includeSubDomains'' = 31536000"
  by (simp add: parseMaxAge_def maxAgeAt_def Canonicalize_def canonCode_def isDigit_def parseInt_def
      digitValue_def)

lemma includeSubDomains_zero: "regexTest ''includeSubDomains'' ''max-age=0; includeSubDomains''"
  by (simp add: Canonicalize_def canonCode_def)

lemma includeSubDomains_day: "\<not> regexTest ''includeSubDomains'' ''max-age=86400''"
  by (simp add: Canonicalize_def canonCode_def)

lemma includeSubDomains_year:
  "regexTest ''includeSubDomains'' ''max-age=31536000; includeSubDomains''"
  by (simp add: Canonicalize_def canonCode_def)



section \<open>Letter case\<close>

lemma char_eq_iff_code: "(c = d) = ((of_char c :: nat) = of_char d)"
  by (metis char_of_char)

lemma lower_code:
  "(of_char (toLowerCase_char c) :: nat) =
     (if (65 \<le> (of_char c :: nat) \<and> (of_char c :: nat) \<le> 90)
         \<or> (192 \<le> (of_char c :: nat) \<and> (of_char c :: nat) \<le> 222 \<and> (of_char c :: nat) \<noteq> 215)
      then of_char c + 32 else of_char c)"
  by (auto simp: toLowerCase_char_def Let_def)

lemma fold_arith:
  fixes m n :: nat
  assumes "m < 128" and "\<not> (65 \<le> m \<and> m \<le> 90)"
  shows "(canonCode m = canonCode n)
     = ((if (65 \<le> n \<and> n \<le> 90) \<or> (192 \<le> n \<and> n \<le> 222 \<and> n \<noteq> 215) then n + 32 else n) = m)"
proof -
  define low where
    "low = (if (65 \<le> n \<and> n \<le> 90) \<or> (192 \<le> n \<and> n \<le> 222 \<and> n \<noteq> 215) then n + 32 else n)"
  have cm: "canonCode m = (if 97 \<le> m \<and> m \<le> 122 then m - 32 else m)"
    using assms(1) by (simp add: canonCode_def)
  consider "97 \<le> n \<and> n \<le> 122" | "65 \<le> n \<and> n \<le> 90"
    | "224 \<le> n \<and> n \<le> 254 \<and> n \<noteq> 247" | "192 \<le> n \<and> n \<le> 222 \<and> n \<noteq> 215"
    | "n = 255" | "n = 181"
    | "\<not> (97 \<le> n \<and> n \<le> 122)" "\<not> (65 \<le> n \<and> n \<le> 90)"
      "\<not> (224 \<le> n \<and> n \<le> 254 \<and> n \<noteq> 247)" "\<not> (192 \<le> n \<and> n \<le> 222 \<and> n \<noteq> 215)"
      "n \<noteq> 255" "n \<noteq> 181"
    by blast
  then have "(canonCode m = canonCode n) = (low = m)"
  proof cases
    case 1
    then have "canonCode n = n - 32" "low = n"
      by (simp_all add: canonCode_def low_def)
    then show ?thesis unfolding cm using assms 1 by auto
  next
    case 2
    then have "canonCode n = n" "low = n + 32"
      by (simp_all add: canonCode_def low_def)
    then show ?thesis unfolding cm using assms 2 by auto
  next
    case 3
    then have "canonCode n = n - 32" "low = n"
      by (simp_all add: canonCode_def low_def)
    then show ?thesis unfolding cm using assms 3 by auto
  next
    case 4
    then have "canonCode n = n" "low = n + 32"
      by (simp_all add: canonCode_def low_def)
    then show ?thesis unfolding cm using assms 4 by auto
  next
    case 5
    then have "canonCode n = 376" "low = n"
      by (simp_all add: canonCode_def low_def)
    then show ?thesis unfolding cm using assms 5 by auto
  next
    case 6
    then have "canonCode n = 924" "low = n"
      by (simp_all add: canonCode_def low_def)
    then show ?thesis unfolding cm using assms 6 by auto
  next
    case 7
    then have "canonCode n = n" "low = n"
      by (auto simp: canonCode_def low_def)
    then show ?thesis unfolding cm using assms 7 by auto
  qed
  then show ?thesis by (simp add: low_def)
qed

lemma canon_lower:
  assumes "(of_char p :: nat) < 128"
    and "\<not> (65 \<le> (of_char p :: nat) \<and> (of_char p :: nat) \<le> 90)"
  shows "(Canonicalize p = Canonicalize c) = (toLowerCase_char c = p)"
  unfolding Canonicalize_def char_eq_iff_code [of _ p] lower_code
  by (rule fold_arith [OF assms])

lemma ciPrefix_lower:
  assumes "\<forall>p\<in>set pat. (of_char p :: nat) < 128
             \<and> \<not> (65 \<le> (of_char p :: nat) \<and> (of_char p :: nat) \<le> 90)"
  shows "ciPrefix pat s = (length pat \<le> length s \<and> toLowerCase (take (length pat) s) = pat)"
  using assms
proof (induction pat s rule: ciPrefix.induct)
  case (1 s)
  show ?case by (simp add: toLowerCase_def)
next
  case (2 p ps)
  show ?case by simp
next
  case (3 p ps c cs)
  then show ?case
    by (auto simp: toLowerCase_def canon_lower)
qed

lemma ciPrefix_maxAge:
  "ciPrefix ''max-age='' s = (8 \<le> length s \<and> toLowerCase (take 8 s) = ''max-age='')"
proof -
  have l: "length ''max-age='' = 8"
    by simp
  have "ciPrefix ''max-age='' s
      = (length ''max-age='' \<le> length s
         \<and> toLowerCase (take (length ''max-age='') s) = ''max-age='')"
    by (rule ciPrefix_lower) simp
  then show ?thesis
    unfolding l .
qed

section \<open>The max-age pattern\<close>

lemma maxAgeAt_directive:
  "maxAgeAt s = (if isMaxAgeDirective s then Some (takeWhile isDigit (drop 8 s)) else None)"
proof (cases "8 < length s")
  case True
  then have "drop 8 s = s ! 8 # drop (Suc 8) s"
    by (simp only: Cons_nth_drop_Suc)
  then show ?thesis
    using True by (simp add: maxAgeAt_def isMaxAgeDirective_def ciPrefix_maxAge)
next
  case False
  then show ?thesis
    by (simp add: maxAgeAt_def isMaxAgeDirective_def)
qed

lemma foldl_decimal:
  "foldl (\<lambda>n c. 10 * n + digitValue c) a ds = a * 10 ^ length ds + decimalValue ds"
  by (induction ds arbitrary: a) (simp_all add: algebra_simps)

lemma parseInt_decimalValue: "parseInt ds = decimalValue ds"
  by (simp add: parseInt_def foldl_decimal)

lemma maxAgeSeconds_spec_Nil: "maxAgeSeconds_spec [] = 0"
  by (simp add: maxAgeSeconds_spec_def)

lemma maxAgeSeconds_spec_Cons:
  "maxAgeSeconds_spec (c # cs) =
     (if isMaxAgeDirective (c # cs) then decimalValue (takeWhile isDigit (drop 8 (c # cs)))
      else maxAgeSeconds_spec cs)"
proof -
  have u: "[0..<length (c # cs)] = 0 # map Suc [0..<length cs]"
    by (simp add: upt_conv_Cons map_Suc_upt del: upt_Suc)
  have m: "(case map Suc xs of [] \<Rightarrow> 0 | i # _ \<Rightarrow> g i)
      = (case xs of [] \<Rightarrow> 0 | i # _ \<Rightarrow> g (Suc i))" for xs :: "nat list" and g :: "nat \<Rightarrow> nat"
    by (cases xs) simp_all
  have d: "drop (9 + i) (c # cs) = drop (8 + i) cs" for i
  proof -
    have "9 + i = Suc (8 + i)"
      by simp
    then show ?thesis
      by (simp only: drop_Suc_Cons)
  qed
  show ?thesis
    unfolding maxAgeSeconds_spec_def u
    by (simp add: filter_map comp_def m d cong: list.case_cong)
qed

lemma parseMaxAge_Nil: "parseMaxAge [] = 0"
  by (simp add: parseMaxAge_def)

lemma parseMaxAge_Cons:
  "parseMaxAge (c # cs) =
     (if isMaxAgeDirective (c # cs) then parseInt (takeWhile isDigit (drop 8 (c # cs)))
      else parseMaxAge cs)"
  by (simp add: parseMaxAge_def maxAgeAt_directive)

lemma parseMaxAge_refines: "parseMaxAge h = maxAgeSeconds_spec h"
  by (induction h)
    (simp_all only: parseMaxAge_Nil parseMaxAge_Cons maxAgeSeconds_spec_Nil
      maxAgeSeconds_spec_Cons parseInt_decimalValue)

lemma parseMaxAge_default:
  assumes "\<forall>i<length h. \<not> isMaxAgeDirective (drop i h)"
  shows "parseMaxAge h = 0"
proof -
  have "filter (\<lambda>i. isMaxAgeDirective (drop i h)) [0..<length h] = []"
    using assms by (simp add: filter_empty_conv)
  then show ?thesis
    by (simp add: parseMaxAge_refines maxAgeSeconds_spec_def)
qed

lemma showNat_365: "showNat 365 = ''365''"
  by (simp add: showNat.simps digitChar_def)

section \<open>A directive appended to a header value\<close>

lemma ciPrefix_length: "ciPrefix pat s \<Longrightarrow> length pat \<le> length s"
  by (induction pat s rule: ciPrefix.induct) simp_all

lemma ciPrefix_append_stop:
  assumes "\<forall>p\<in>set pat. Canonicalize p \<noteq> Canonicalize x"
  shows "ciPrefix pat (s @ x # t) = ciPrefix pat s"
  using assms by (induction pat s rule: ciPrefix.induct) simp_all

lemma regexTest_append_stop:
  assumes "pat \<noteq> []" and "\<forall>p\<in>set pat. Canonicalize p \<noteq> Canonicalize x"
  shows "regexTest pat (s @ x # t) = (regexTest pat s \<or> regexTest pat t)"
proof (induction s)
  case Nil
  obtain p ps where pat: "pat = p # ps"
    using assms(1) by (cases pat) auto
  show ?case
    using assms(2) by (simp add: pat)
next
  case (Cons c cs)
  have "ciPrefix pat ((c # cs) @ x # t) = ciPrefix pat (c # cs)"
    by (rule ciPrefix_append_stop [OF assms(2)])
  then show ?case
    using Cons.IH by auto
qed

lemma regexTest_append: "regexTest pat t \<Longrightarrow> regexTest pat (s @ t)"
  by (induction s) (cases t, simp_all)

lemma maxAgeAt_append_stop:
  assumes "\<forall>p\<in>set ''max-age=''. Canonicalize p \<noteq> Canonicalize x" and "\<not> isDigit x"
  shows "maxAgeAt (s @ x # t) = maxAgeAt s"
proof (cases "ciPrefix ''max-age='' s")
  case True
  then have "8 \<le> length s"
    using ciPrefix_length [of "''max-age=''" s] by simp
  then have "takeWhile isDigit (drop 8 (s @ x # t)) = takeWhile isDigit (drop 8 s)"
    using assms(2) by (simp add: takeWhile_append takeWhile_eq_all_conv [THEN iffD2])
  then show ?thesis
    unfolding maxAgeAt_def ciPrefix_append_stop [OF assms(1)] by simp
next
  case False
  then show ?thesis
    unfolding maxAgeAt_def ciPrefix_append_stop [OF assms(1)] by simp
qed

lemma maxAgeMatch_append_stop:
  assumes "\<forall>p\<in>set ''max-age=''. Canonicalize p \<noteq> Canonicalize x" and "\<not> isDigit x"
  shows "maxAgeMatch (s @ x # t)
     = (case maxAgeMatch s of Some g \<Rightarrow> Some g | None \<Rightarrow> maxAgeMatch (x # t))"
proof (induction s)
  case Nil
  show ?case by simp
next
  case (Cons c cs)
  have "maxAgeAt ((c # cs) @ x # t) = maxAgeAt (c # cs)"
    by (rule maxAgeAt_append_stop [OF assms])
  then show ?case
    using Cons.IH by (simp split: option.splits)
qed

lemma parseMaxAge_append_preload: "parseMaxAge (h @ ''; preload'') = parseMaxAge h"
proof -
  have a: "\<forall>p\<in>set ''max-age=''. Canonicalize p \<noteq> Canonicalize CHR '';''"
    by (simp add: Canonicalize_def canonCode_def)
  have b: "\<not> isDigit CHR '';''"
    by (simp add: isDigit_def)
  have c: "maxAgeMatch ''; preload'' = None"
    by (simp add: maxAgeAt_def Canonicalize_def canonCode_def)
  show ?thesis
    unfolding parseMaxAge_def using maxAgeMatch_append_stop [OF a b, of h "'' preload''"] c
    by (simp split: option.splits)
qed

lemma includeSubDomains_append_preload:
  "regexTest ''includeSubDomains'' (h @ ''; preload'') = regexTest ''includeSubDomains'' h"
proof -
  have a: "\<forall>p\<in>set ''includeSubDomains''. Canonicalize p \<noteq> Canonicalize CHR '';''"
    by (simp add: Canonicalize_def canonCode_def)
  have c: "\<not> regexTest ''includeSubDomains'' '' preload''"
    by (simp add: Canonicalize_def canonCode_def)
  show ?thesis
    using regexTest_append_stop [OF _ a, of h "'' preload''"] c by simp
qed

lemma preload_append_preload: "regexTest ''preload'' (h @ ''; preload'')"
proof -
  have "regexTest ''preload'' ''; preload''"
    by (simp add: Canonicalize_def canonCode_def)
  then show ?thesis
    by (rule regexTest_append)
qed

section \<open>The claims\<close>

text \<open>
  C1. The aggregate severity follows the flags that the scan of lines 47-49 computes,
  and that scan takes the first (\<open>name=value\<close>) segment of a cookie for an attribute.
  The response with the one cookie \<open>samesite_pref=1; Secure; HttpOnly\<close> has a cookie with
  \<open>Secure\<close> and without \<open>SameSite\<close>: the claim gives \<open>warning\<close>, "Security Issues
  Found", and the code returns \<open>ok\<close>, "All Cookies Secure", with no issue. The response
  with the one cookie \<open>secure\<close> has no cookie with the \<open>Secure\<close> attribute: the claim
  gives \<open>critical\<close>, "Critical Security Issues", and the code returns \<open>warning\<close>,
  "Security Issues Found".
\<close>

theorem aggregate_severity_misled_by_first_segment:
  "secure_spec ''samesite_pref=1; Secure; HttpOnly''
   \<and> \<not> sameSite_spec ''samesite_pref=1; Secure; HttpOnly''
   \<and> severity (checkCookies (respond (cookieResponse [''samesite_pref=1; Secure; HttpOnly'']))
        ''example.com'') = ''ok''
   \<and> status (checkCookies (respond (cookieResponse [''samesite_pref=1; Secure; HttpOnly'']))
        ''example.com'') = ''All Cookies Secure''
   \<and> issueCount (checkCookies (respond (cookieResponse [''samesite_pref=1; Secure; HttpOnly'']))
        ''example.com'') = Some 0
   \<and> \<not> secure_spec ''secure''
   \<and> severity (checkCookies (respond (cookieResponse [''secure''])) ''example.com'')
       = ''warning''
   \<and> status (checkCookies (respond (cookieResponse [''secure''])) ''example.com'')
       = ''Security Issues Found''"
proof -
  have e: "secure_spec ''samesite_pref=1; Secure; HttpOnly''"
    "\<not> sameSite_spec ''samesite_pref=1; Secure; HttpOnly''"
    "hasSecure ''samesite_pref=1; Secure; HttpOnly''"
    "hasHttpOnly ''samesite_pref=1; Secure; HttpOnly''"
    "hasSameSite ''samesite_pref=1; Secure; HttpOnly''"
    "\<not> secure_spec ''secure''" "hasSecure ''secure''" "\<not> hasHttpOnly ''secure''"
    "\<not> hasSameSite ''secure''"
    by code_simp+
  show ?thesis
    using e
    by (simp add: checkCookies_def respond_def cookieResponse_def cookieHeadersOf_def Let_def
        cookieStep_def cookieIssues_def issueEntry_def cookieSeverity_def)
qed

text \<open>
  C2, as the code has it. The max-age tiers apply when the
  \<open>Strict-Transport-Security\<close> header is present with a value that is not the empty
  string: then \<open>maxAge\<close> 0 gives \<open>critical\<close>, "HSTS Misconfigured" and the issue
  "max-age is 0 (effectively disabled)", whether or not \<open>includeSubDomains\<close> is there; a
  \<open>maxAge\<close> below 31536000 gives \<open>warning\<close>, "HSTS Weak Configuration" and an issue with
  the number of days; otherwise the severity before the \<open>includeSubDomains\<close> rule is
  \<open>ok\<close> and the status is "HSTS Enabled".
\<close>

theorem hsts_maxAge_tiers:
  assumes "get (normalizeUrl dmn) = Inr resp"
    and "headers resp ''strict-transport-security'' = Some h" and "h \<noteq> []"
  shows "maxAge (details (checkHSTS get dmn)) = Some (parseMaxAge h)
    \<and> (parseMaxAge h = 0 \<longrightarrow>
         severity (checkHSTS get dmn) = ''critical''
         \<and> status (checkHSTS get dmn) = ''HSTS Misconfigured''
         \<and> (\<exists>iss. hsts_details.issues (details (checkHSTS get dmn)) = Some iss
                \<and> ''max-age is 0 (effectively disabled)'' \<in> set iss))
    \<and> (0 < parseMaxAge h \<and> parseMaxAge h < 31536000 \<longrightarrow>
         severity (checkHSTS get dmn) = ''warning''
         \<and> status (checkHSTS get dmn) = ''HSTS Weak Configuration''
         \<and> (\<exists>iss. hsts_details.issues (details (checkHSTS get dmn)) = Some iss
                \<and> ''max-age is '' @ showNat (parseMaxAge h div 86400)
                    @ '' days (recommended: at least 365 days)'' \<in> set iss))
    \<and> (31536000 \<le> parseMaxAge h \<longrightarrow>
         fst (maxAgeTier (parseMaxAge h)) = ''ok''
         \<and> status (checkHSTS get dmn) = ''HSTS Enabled''
         \<and> severity (checkHSTS get dmn)
             = (if includeSubDomains (details (checkHSTS get dmn)) then ''ok'' else ''warning''))"
  unfolding checkHSTS_present [of get dmn resp h, OF assms]
  by (simp add: subDomainsRule_status subDomainsRule_issues subDomainsRule_severity
      maxAgeTier_def)

theorem hsts_maxAge_tiers_witness:
  "headers (hstsResponse ''max-age=0; includeSubDomains'') ''strict-transport-security''
     = Some ''max-age=0; includeSubDomains''
   \<and> parseMaxAge ''max-age=0; includeSubDomains'' = 0
   \<and> severity (checkHSTS (respond (hstsResponse ''max-age=0; includeSubDomains''))
        ''example.com'') = ''critical''
   \<and> status (checkHSTS (respond (hstsResponse ''max-age=0; includeSubDomains''))
        ''example.com'') = ''HSTS Misconfigured''
   \<and> parseMaxAge ''max-age=86400'' = 86400
   \<and> severity (checkHSTS (respond (hstsResponse ''max-age=86400'')) ''example.com'')
       = ''warning''
   \<and> status (checkHSTS (respond (hstsResponse ''max-age=86400'')) ''example.com'')
       = ''HSTS Weak Configuration''
   \<and> parseMaxAge ''max-age=31536000; includeSubDomains'' = 31536000
   \<and> status (checkHSTS (respond (hstsResponse ''max-age=31536000; includeSubDomains''))
        ''example.com'') = ''HSTS Enabled''"
proof -
  note t = hsts_maxAge_tiers [of "respond (hstsResponse v)" "''example.com''"
      "hstsResponse v" v for v, OF respond_resolves hstsResponse_header]
  from t [of "''max-age=0; includeSubDomains''"] t [of "''max-age=86400''"]
    t [of "''max-age=31536000; includeSubDomains''"]
    parseMaxAge_zero parseMaxAge_day parseMaxAge_year hstsResponse_header
  show ?thesis by simp
qed

text \<open>
  C2 as the claim states it fails on a header that is present with the empty value: the
  test \<open>!hstsHeader\<close> takes the empty string for a missing header, so that the status is
  "HSTS Not Enabled" and the finding has no list of issues, although the header is there
  and its \<open>max-age\<close> directive, being missing, reads as 0.
\<close>

theorem hsts_empty_header_counterexample:
  "headers (hstsResponse []) ''strict-transport-security'' = Some []
   \<and> parseMaxAge [] = 0
   \<and> status (checkHSTS (respond (hstsResponse [])) ''example.com'') = ''HSTS Not Enabled''
   \<and> status (checkHSTS (respond (hstsResponse [])) ''example.com'')
       \<notin> {''HSTS Misconfigured'', ''HSTS Weak Configuration'', ''HSTS Enabled''}
   \<and> hsts_details.issues (details (checkHSTS (respond (hstsResponse [])) ''example.com''))
       = None"
  by (simp add: checkHSTS_def respond_def hstsResponse_def parseMaxAge_def)

text \<open>
  C3. When the response has no \<open>Strict-Transport-Security\<close> header, \<open>checkHSTS\<close> returns
  severity \<open>critical\<close>, status \<open>HSTS Not Enabled\<close> and \<open>enabled: false\<close>, whatever the
  other headers of the response are.
\<close>

theorem hsts_absent_is_critical:
  assumes "get (normalizeUrl dmn) = Inr resp"
    and "headers resp ''strict-transport-security'' = None"
  shows "severity (checkHSTS get dmn) = ''critical''
    \<and> status (checkHSTS get dmn) = ''HSTS Not Enabled''
    \<and> enabled (checkHSTS get dmn) = False"
  using assms by (simp add: checkHSTS_def)

theorem hsts_absent_is_critical_witness:
  "respond plainResponse (normalizeUrl ''example.com'') = Inr plainResponse
   \<and> headers plainResponse ''strict-transport-security'' = None
   \<and> headers plainResponse ''content-type'' = Some ''text/html''
   \<and> severity (checkHSTS (respond plainResponse) ''example.com'') = ''critical''
   \<and> status (checkHSTS (respond plainResponse) ''example.com'') = ''HSTS Not Enabled''
   \<and> enabled (checkHSTS (respond plainResponse) ''example.com'') = False"
proof -
  have r: "respond plainResponse (normalizeUrl ''example.com'') = Inr plainResponse"
    by (rule respond_resolves)
  have h: "headers plainResponse ''strict-transport-security'' = None"
    by (simp add: plainResponse_def)
  have c: "headers plainResponse ''content-type'' = Some ''text/html''"
    by (simp add: plainResponse_def)
  from hsts_absent_is_critical [of "respond plainResponse" "''example.com''" plainResponse,
      OF r h] r h c
  show ?thesis by simp
qed



text \<open>
  C5. When the fetch fails, each analyzer returns a finding with \<open>success: false\<close>,
  severity \<open>error\<close> and a message that is not empty and ends with the description of the
  failure. Both analyzers are total functions of the outcome of the fetch: on a failure
  the finding below is what the caller gets, and nothing else can happen.
\<close>

theorem fetch_failure_gives_error_finding:
  assumes "get (normalizeUrl dmn) = Inl error_message"
  shows "success (checkCookies get dmn) = False
    \<and> severity (checkCookies get dmn) = ''error''
    \<and> message (checkCookies get dmn) = ''Failed to check cookies: '' @ error_message
    \<and> message (checkCookies get dmn) \<noteq> []
    \<and> error (checkCookies get dmn) = Some error_message
    \<and> success (checkHSTS get dmn) = False
    \<and> severity (checkHSTS get dmn) = ''error''
    \<and> message (checkHSTS get dmn) = ''Failed to check HSTS: '' @ error_message
    \<and> message (checkHSTS get dmn) \<noteq> []
    \<and> error (checkHSTS get dmn) = Some error_message"
  using assms by (simp add: checkCookies_def checkHSTS_def)

theorem fetch_failure_gives_error_finding_witness:
  "reject ''timeout of 10000ms exceeded'' (normalizeUrl ''example.com'')
     = Inl ''timeout of 10000ms exceeded''
   \<and> success (checkCookies (reject ''timeout of 10000ms exceeded'') ''example.com'') = False
   \<and> severity (checkCookies (reject ''timeout of 10000ms exceeded'') ''example.com'') = ''error''
   \<and> message (checkCookies (reject ''timeout of 10000ms exceeded'') ''example.com'')
       = ''Failed to check cookies: timeout of 10000ms exceeded''
   \<and> success (checkHSTS (reject ''timeout of 10000ms exceeded'') ''example.com'') = False
   \<and> severity (checkHSTS (reject ''timeout of 10000ms exceeded'') ''example.com'') = ''error''
   \<and> message (checkHSTS (reject ''timeout of 10000ms exceeded'') ''example.com'')
       = ''Failed to check HSTS: timeout of 10000ms exceeded''"
proof -
  have r: "reject ''timeout of 10000ms exceeded'' (normalizeUrl ''example.com'')
     = Inl ''timeout of 10000ms exceeded''"
    by (rule reject_rejects)
  from fetch_failure_gives_error_finding
    [of "reject ''timeout of 10000ms exceeded''" "''example.com''"
      "''timeout of 10000ms exceeded''", OF r] r
  show ?thesis by simp
qed

text \<open>
  C6. The attribute scan of lines 47-49 runs over all the segments of the cookie, the
  first (\<open>name=value\<close>) segment included, which lines 44-45 have taken for the name.
  The cookie \<open>samesite_pref=1; Secure; HttpOnly\<close> has no segment after the first that
  begins with \<open>samesite\<close>: the claim gives \<open>sameSite: false\<close>, and the code returns
  \<open>sameSite: true\<close> and no issue entry, because the name begins with \<open>samesite\<close>. The
  cookie \<open>secure\<close> has no segment after the first at all: the claim gives
  \<open>secure: false\<close>, and the code returns \<open>secure: true\<close>.
\<close>

theorem first_segment_scanned_as_attribute:
  "\<not> sameSite_spec ''samesite_pref=1; Secure; HttpOnly''
   \<and> cookies (checkCookies (respond (cookieResponse [''samesite_pref=1; Secure; HttpOnly'']))
        ''example.com'')
       = Some [\<lparr>cookie_record.name = ''samesite_pref'', secure = True, httpOnly = True,
                sameSite = True\<rparr>]
   \<and> cookie_finding.issues (checkCookies (respond (cookieResponse
        [''samesite_pref=1; Secure; HttpOnly''])) ''example.com'') = Some []
   \<and> attributeSegments ''secure'' = []
   \<and> \<not> secure_spec ''secure''
   \<and> cookies (checkCookies (respond (cookieResponse [''secure''])) ''example.com'')
       = Some [\<lparr>cookie_record.name = ''secure'', secure = True, httpOnly = False,
                sameSite = False\<rparr>]"
proof -
  have e: "\<not> sameSite_spec ''samesite_pref=1; Secure; HttpOnly''"
    "hasSecure ''samesite_pref=1; Secure; HttpOnly''"
    "hasHttpOnly ''samesite_pref=1; Secure; HttpOnly''"
    "hasSameSite ''samesite_pref=1; Secure; HttpOnly''"
    "cookieName ''samesite_pref=1; Secure; HttpOnly'' = ''samesite_pref''"
    "attributeSegments ''secure'' = []"
    "\<not> secure_spec ''secure''" "hasSecure ''secure''" "\<not> hasHttpOnly ''secure''"
    "\<not> hasSameSite ''secure''" "cookieName ''secure'' = ''secure''"
    by code_simp+
  show ?thesis
    using e
    by (simp add: checkCookies_def respond_def cookieResponse_def cookieHeadersOf_def Let_def
        cookieStep_def cookieIssues_def cookieRecord_def issueEntry_def displayName_def
        cookieSeverity_def)
qed

text \<open>
  C7, as the code has it. Parsing of \<open>max-age\<close> on a header value that is not the empty
  string. The parsed \<open>maxAge\<close> is 0 when the value has no \<open>max-age=<digits>\<close>, in any
  letter case (the directive is missing, or no digit follows the \<open>=\<close>). When the digits
  of the first such directive denote a number below \<open>2 ^ 53\<close>, \<open>maxAge\<close> is that number
  and \<open>maxAgeDays\<close> is its quotient by 86400, in the parse and in the finding; the header
  \<open>max-age=31536000; includeSubDomains\<close> gives \<open>maxAgeDays\<close> 365, \<open>includeSubDomains\<close>
  true and severity \<open>ok\<close>. From \<open>2 ^ 53\<close> on the code has a double where this model has
  the number itself, and nothing is stated.
\<close>

theorem maxAge_parsing:
  "((\<forall>i<length h. \<not> isMaxAgeDirective (drop i h)) \<longrightarrow> parseMaxAge h = 0)
   \<and> (maxAgeSeconds_spec h < 2 ^ 53 \<longrightarrow> parseMaxAge h = maxAgeSeconds_spec h)
   \<and> (get (normalizeUrl dmn) = Inr resp
        \<and> headers resp ''strict-transport-security'' = Some h \<and> h \<noteq> []
        \<and> maxAgeSeconds_spec h < 2 ^ 53 \<longrightarrow>
          maxAge (details (checkHSTS get dmn)) = Some (maxAgeSeconds_spec h)
          \<and> maxAgeDays (details (checkHSTS get dmn)) = Some (maxAgeSeconds_spec h div 86400)
          \<and> (h = ''max-age=31536000; includeSubDomains'' \<longrightarrow>
                maxAgeDays (details (checkHSTS get dmn)) = Some 365
                \<and> includeSubDomains (details (checkHSTS get dmn)) = True
                \<and> severity (checkHSTS get dmn) = ''ok''))"
proof -
  have f: "maxAge (details (checkHSTS get dmn)) = Some (maxAgeSeconds_spec h)
      \<and> maxAgeDays (details (checkHSTS get dmn)) = Some (maxAgeSeconds_spec h div 86400)
      \<and> (h = ''max-age=31536000; includeSubDomains'' \<longrightarrow>
            maxAgeDays (details (checkHSTS get dmn)) = Some 365
            \<and> includeSubDomains (details (checkHSTS get dmn)) = True
            \<and> severity (checkHSTS get dmn) = ''ok'')"
    if a: "get (normalizeUrl dmn) = Inr resp"
      "headers resp ''strict-transport-security'' = Some h" "h \<noteq> []"
    unfolding checkHSTS_present [of get dmn resp h, OF a] parseMaxAge_refines [symmetric]
    by (auto simp: parseMaxAge_year includeSubDomains_year subDomainsRule_severity
        maxAgeTier_def)
  show ?thesis
    using f parseMaxAge_refines [of h] parseMaxAge_default [of h] by blast
qed

theorem maxAge_parsing_witness:
  "\<not> isMaxAgeDirective ''max-age=x''
   \<and> parseMaxAge ''max-age=x'' = 0
   \<and> maxAgeSeconds_spec ''Max-Age=86400'' = 86400
   \<and> parseMaxAge ''Max-Age=86400'' = 86400
   \<and> headers (hstsResponse ''max-age=31536000; includeSubDomains'')
        ''strict-transport-security'' = Some ''max-age=31536000; includeSubDomains''
   \<and> maxAgeSeconds_spec ''max-age=31536000; includeSubDomains'' = 31536000
   \<and> maxAge (details (checkHSTS (respond (hstsResponse ''max-age=31536000; includeSubDomains''))
        ''example.com'')) = Some 31536000
   \<and> maxAgeDays (details (checkHSTS (respond
        (hstsResponse ''max-age=31536000; includeSubDomains'')) ''example.com'')) = Some 365
   \<and> includeSubDomains (details (checkHSTS (respond
        (hstsResponse ''max-age=31536000; includeSubDomains'')) ''example.com'')) = True
   \<and> severity (checkHSTS (respond (hstsResponse ''max-age=31536000; includeSubDomains''))
        ''example.com'') = ''ok''"
proof -
  have d: "\<forall>i<length ''max-age=x''. \<not> isMaxAgeDirective (drop i ''max-age=x'')"
  proof (intro allI impI)
    fix i
    show "\<not> isMaxAgeDirective (drop i ''max-age=x'')"
    proof (cases i)
      case 0
      then show ?thesis
        by (simp add: isMaxAgeDirective_def isDigit_def)
    next
      case (Suc k)
      then have "\<not> 8 < length (drop i ''max-age=x'')"
        by simp
      then show ?thesis
        unfolding isMaxAgeDirective_def by blast
    qed
  qed
  have p: "parseMaxAge ''Max-Age=86400'' = 86400"
    by (simp add: parseMaxAge_def maxAgeAt_def Canonicalize_def canonCode_def isDigit_def
        parseInt_def digitValue_def)
  have s: "maxAgeSeconds_spec ''Max-Age=86400'' = 86400"
    "maxAgeSeconds_spec ''max-age=31536000; includeSubDomains'' = 31536000"
    using p parseMaxAge_year by (simp_all add: parseMaxAge_refines)
  have b: "maxAgeSeconds_spec ''Max-Age=86400'' < 2 ^ 53"
    "maxAgeSeconds_spec ''max-age=31536000; includeSubDomains'' < 2 ^ 53"
    unfolding s by simp_all
  note t = maxAge_parsing [of h "respond (hstsResponse h)" "''example.com''" "hstsResponse h"
      for h]
  from t [of "''max-age=x''"] t [of "''Max-Age=86400''"]
    t [of "''max-age=31536000; includeSubDomains''"] d d [rule_format, of 0] s b
    respond_resolves hstsResponse_header
  show ?thesis by simp
qed

text \<open>
  C7 as the claim states it, for every header value, fails on the empty value: the test
  \<open>!hstsHeader\<close> takes it for a missing header, nothing is parsed, and the finding has
  \<open>maxAge: null\<close> and no \<open>maxAgeDays\<close>, where the claim gives the default 0.
\<close>

theorem empty_header_maxAge_counterexample:
  "headers (hstsResponse []) ''strict-transport-security'' = Some []
   \<and> maxAgeMatch [] = None
   \<and> maxAge (details (checkHSTS (respond (hstsResponse [])) ''example.com'')) = None
   \<and> maxAge (details (checkHSTS (respond (hstsResponse [])) ''example.com'')) \<noteq> Some 0
   \<and> maxAgeDays (details (checkHSTS (respond (hstsResponse [])) ''example.com'')) = None"
  by (simp add: checkHSTS_def respond_def hstsResponse_def)

text \<open>
  C8. The \<open>raw\<close> field of the issue entries: the entries are those of the cookies that
  lack an attribute, in the order of the headers, and the \<open>raw\<close> field of an entry is the
  first 100 characters of the header value followed by \<open>...\<close> when the value is longer
  than 100 characters, and the value itself when it has at most 100 characters.
\<close>

theorem raw_is_truncated_to_100:
  assumes "get (normalizeUrl dmn) = Inr resp"
  shows "\<exists>iss. cookie_finding.issues (checkCookies get dmn) = Some iss
    \<and> map raw iss
        = map (\<lambda>c. if 100 < length c then take 100 c @ ''...'' else c)
            (filter (\<lambda>c. \<not> hasSecure c \<or> \<not> hasHttpOnly c \<or> \<not> hasSameSite c)
               (cookieHeadersOf resp))"
proof (cases "cookieHeadersOf resp = []")
  case True
  then show ?thesis
    by (simp add: checkCookies_none [of get dmn resp, OF assms])
next
  case False
  have r: "(\<lambda>(k, c). raw (issueEntry c k))
      = (\<lambda>(k, c). if 100 < length c then take 100 c @ ''...'' else c)"
    by (auto simp: issueEntry_def rawOf_def fun_eq_iff)
  have f: "(\<lambda>c. cookieIssues c \<noteq> [])
      = (\<lambda>c. \<not> hasSecure c \<or> \<not> hasHttpOnly c \<or> \<not> hasSameSite c)"
    by (auto simp: cookieIssues_empty_iff fun_eq_iff)
  have "map raw (fst (forEach cookieStep (cookieHeadersOf resp) 0 ([], [])))
      = map (\<lambda>(k, c). if 100 < length c then take 100 c @ ''...'' else c)
          (filter (\<lambda>(k, c). cookieIssues c \<noteq> []) (enumerate 0 (cookieHeadersOf resp)))"
    by (simp add: forEach_cookieStep comp_def split_def issueEntry_def rawOf_def)
  also have "\<dots> = map (\<lambda>c. if 100 < length c then take 100 c @ ''...'' else c)
          (filter (\<lambda>c. cookieIssues c \<noteq> []) (cookieHeadersOf resp))"
    by (rule map_filter_enumerate)
  finally show ?thesis
    unfolding f by (simp add: checkCookies_some [of get dmn resp, OF assms False])
qed

theorem raw_is_truncated_to_100_witness:
  "length ''session=0123456789abcdef0123456789abcdef0123456789abcdef0123456789abcdef0123456789abcdef0123456789abcdef; Path=/'' = 112
   \<and> (\<exists>iss. cookie_finding.issues (checkCookies (respond (cookieResponse
          [''session=0123456789abcdef0123456789abcdef0123456789abcdef0123456789abcdef0123456789abcdef0123456789abcdef; Path=/'', ''a=1; Secure; HttpOnly; SameSite=Lax'', ''b=2''])) ''example.com'')
         = Some iss
       \<and> map raw iss
         = [''session=0123456789abcdef0123456789abcdef0123456789abcdef0123456789abcdef0123456789abcdef0123456789ab...'', ''b=2''])"
proof -
  have e: "\<not> hasSecure ''session=0123456789abcdef0123456789abcdef0123456789abcdef0123456789abcdef0123456789abcdef0123456789abcdef; Path=/''"
    "hasSecure ''a=1; Secure; HttpOnly; SameSite=Lax''"
    "hasHttpOnly ''a=1; Secure; HttpOnly; SameSite=Lax''"
    "hasSameSite ''a=1; Secure; HttpOnly; SameSite=Lax''"
    "\<not> hasSecure ''b=2''"
    by code_simp+
  have h: "cookieHeadersOf (cookieResponse cs) = cs" for cs
    by (simp add: cookieHeadersOf_def cookieResponse_def)
  from raw_is_truncated_to_100 [of "respond (cookieResponse
      [''session=0123456789abcdef0123456789abcdef0123456789abcdef0123456789abcdef0123456789abcdef0123456789abcdef; Path=/'', ''a=1; Secure; HttpOnly; SameSite=Lax'', ''b=2''])" "''example.com''"
      "cookieResponse [''session=0123456789abcdef0123456789abcdef0123456789abcdef0123456789abcdef0123456789abcdef0123456789abcdef; Path=/'', ''a=1; Secure; HttpOnly; SameSite=Lax'', ''b=2'']",
      OF respond_resolves]
  show ?thesis unfolding h using e by simp
qed

text \<open>
  C9, as the code has it. On a fetched response \<open>cookieCount\<close> is the number of
  \<open>Set-Cookie\<close> headers. When the response has such headers, the list \<open>cookies\<close> has
  one record for each header, in the order of the headers, duplicates and malformed
  values included. When it has none, the finding has no list \<open>cookies\<close>.
\<close>

theorem cookieCount_is_header_count:
  assumes "get (normalizeUrl dmn) = Inr resp"
  shows "cookieCount (checkCookies get dmn) = Some (length (cookieHeadersOf resp))
    \<and> (case cookies (checkCookies get dmn) of
          None \<Rightarrow> cookieHeadersOf resp = []
        | Some cs \<Rightarrow> cookieHeadersOf resp \<noteq> []
            \<and> length cs = length (cookieHeadersOf resp)
            \<and> (\<forall>i<length cs. cs ! i = cookieRecord (cookieHeadersOf resp ! i) i))"
proof (cases "cookieHeadersOf resp = []")
  case True
  then show ?thesis
    by (simp add: checkCookies_none [of get dmn resp, OF assms])
next
  case False
  then show ?thesis
    by (simp add: checkCookies_some [of get dmn resp, OF assms False] forEach_cookieStep
        nth_enumerate_eq)
qed

theorem cookieCount_is_header_count_witness:
  "cookieCount (checkCookies (respond (cookieResponse [''a=1'', ''a=1'', '';;'', '''']))
      ''example.com'') = Some 4
   \<and> (\<exists>cs. cookies (checkCookies (respond (cookieResponse [''a=1'', ''a=1'', '';;'', '''']))
          ''example.com'') = Some cs \<and> length cs = 4)"
proof -
  have h: "cookieHeadersOf (cookieResponse cs) = cs" for cs
    by (simp add: cookieHeadersOf_def cookieResponse_def)
  note t = cookieCount_is_header_count [of "respond (cookieResponse cs)" "''example.com''"
      "cookieResponse cs" for cs, OF respond_resolves, unfolded h]
  from t [of "[''a=1'', ''a=1'', '';;'', '''']"]
  show ?thesis by (auto split: option.splits)
qed

text \<open>
  C9 as the claim states it, with a list \<open>cookies\<close> of that length in the finding of
  every fetched response, fails on a response without cookies: the branch for zero
  headers returns \<open>cookieCount: 0\<close> and an object that has no key \<open>cookies\<close>.
\<close>

theorem zero_cookies_no_list_counterexample:
  "cookieHeadersOf (cookieResponse []) = []
   \<and> success (checkCookies (respond (cookieResponse [])) ''example.com'')
   \<and> cookieCount (checkCookies (respond (cookieResponse [])) ''example.com'') = Some 0
   \<and> cookies (checkCookies (respond (cookieResponse [])) ''example.com'') = None"
  by (simp add: checkCookies_def respond_def cookieResponse_def cookieHeadersOf_def)

text \<open>
  C10, as the code has it. The \<open>preload\<close> test is read by no part of the
  classification: severity, status, message, issues, \<open>maxAge\<close>, \<open>maxAgeDays\<close> and
  \<open>includeSubDomains\<close> of the finding are determined by the parsed \<open>max-age\<close> and the
  \<open>includeSubDomains\<close> test. Two header values, neither the empty string, that agree on
  these two give findings that agree on the seven fields, whatever \<open>preload\<close> they
  contain and whatever the two domains are; and a directive \<open>; preload\<close> appended to
  a header value changes the \<open>preload\<close> field and the echoed header only.
\<close>

theorem preload_not_in_classification:
  assumes "get1 (normalizeUrl dmn) = Inr resp1"
    and "headers resp1 ''strict-transport-security'' = Some h1" and "h1 \<noteq> []"
    and "get2 (normalizeUrl dmn2) = Inr resp2"
    and "headers resp2 ''strict-transport-security'' = Some h2" and "h2 \<noteq> []"
  shows "(parseMaxAge h1 = parseMaxAge h2
          \<and> regexTest ''includeSubDomains'' h1 = regexTest ''includeSubDomains'' h2
          \<or> h2 = h1 @ ''; preload'' \<longrightarrow>
            severity (checkHSTS get1 dmn) = severity (checkHSTS get2 dmn2)
            \<and> status (checkHSTS get1 dmn) = status (checkHSTS get2 dmn2)
            \<and> message (checkHSTS get1 dmn) = message (checkHSTS get2 dmn2)
            \<and> hsts_details.issues (details (checkHSTS get1 dmn))
                = hsts_details.issues (details (checkHSTS get2 dmn2))
            \<and> maxAge (details (checkHSTS get1 dmn)) = maxAge (details (checkHSTS get2 dmn2))
            \<and> maxAgeDays (details (checkHSTS get1 dmn))
                = maxAgeDays (details (checkHSTS get2 dmn2))
            \<and> includeSubDomains (details (checkHSTS get1 dmn))
                = includeSubDomains (details (checkHSTS get2 dmn2)))
    \<and> (h2 = h1 @ ''; preload'' \<longrightarrow>
          preload (details (checkHSTS get2 dmn2))
          \<and> header (details (checkHSTS get1 dmn)) = Some h1
          \<and> header (details (checkHSTS get2 dmn2)) = Some (h1 @ ''; preload''))"
proof -
  note p1 = checkHSTS_present [of get1 dmn resp1 h1, OF assms(1-3)]
    and p2 = checkHSTS_present [of get2 dmn2 resp2 h2, OF assms(4-6)]
  note m1 = checkHSTS_message [of get1 dmn resp1 h1, OF assms(1-3)]
    and m2 = checkHSTS_message [of get2 dmn2 resp2 h2, OF assms(4-6)]
  have fields: "severity (checkHSTS get1 dmn) = severity (checkHSTS get2 dmn2)
      \<and> status (checkHSTS get1 dmn) = status (checkHSTS get2 dmn2)
      \<and> message (checkHSTS get1 dmn) = message (checkHSTS get2 dmn2)
      \<and> hsts_details.issues (details (checkHSTS get1 dmn))
          = hsts_details.issues (details (checkHSTS get2 dmn2))
      \<and> maxAge (details (checkHSTS get1 dmn)) = maxAge (details (checkHSTS get2 dmn2))
      \<and> maxAgeDays (details (checkHSTS get1 dmn))
          = maxAgeDays (details (checkHSTS get2 dmn2))
      \<and> includeSubDomains (details (checkHSTS get1 dmn))
          = includeSubDomains (details (checkHSTS get2 dmn2))"
    if "parseMaxAge h1 = parseMaxAge h2"
      and "regexTest ''includeSubDomains'' h1 = regexTest ''includeSubDomains'' h2"
    unfolding p1 p2 m1 m2 that by simp
  have same: "parseMaxAge h1 = parseMaxAge h2
      \<and> regexTest ''includeSubDomains'' h1 = regexTest ''includeSubDomains'' h2"
    if "h2 = h1 @ ''; preload''"
    unfolding that by (simp add: parseMaxAge_append_preload includeSubDomains_append_preload)
  have pre: "preload (details (checkHSTS get2 dmn2))
      \<and> header (details (checkHSTS get1 dmn)) = Some h1
      \<and> header (details (checkHSTS get2 dmn2)) = Some (h1 @ ''; preload'')"
    if "h2 = h1 @ ''; preload''"
    unfolding p1 p2 that by (simp add: preload_append_preload)
  show ?thesis
    using fields same pre by blast
qed

theorem preload_not_in_classification_witness:
  "severity (checkHSTS (respond (hstsResponse ''max-age=86400'')) ''example.com'')
     = severity (checkHSTS (respond (hstsResponse ''max-age=86400; preload'')) ''example.org'')
   \<and> message (checkHSTS (respond (hstsResponse ''max-age=86400'')) ''example.com'')
     = message (checkHSTS (respond (hstsResponse ''max-age=86400; preload'')) ''example.org'')
   \<and> preload (details (checkHSTS (respond (hstsResponse ''max-age=86400; preload''))
        ''example.org''))
   \<and> parseMaxAge ''preload; max-age=86400'' = parseMaxAge ''max-age=86400''
   \<and> regexTest ''includeSubDomains'' ''preload; max-age=86400''
       = regexTest ''includeSubDomains'' ''max-age=86400''
   \<and> status (checkHSTS (respond (hstsResponse ''preload; max-age=86400'')) ''example.com'')
     = status (checkHSTS (respond (hstsResponse ''max-age=86400'')) ''example.org'')"
proof -
  have a: "''max-age=86400; preload'' = ''max-age=86400'' @ ''; preload''"
    by simp
  have n: "''max-age=86400'' \<noteq> []" "''max-age=86400; preload'' \<noteq> []"
    "''preload; max-age=86400'' \<noteq> []"
    by simp_all
  have p: "parseMaxAge ''preload; max-age=86400'' = 86400"
    by (simp add: parseMaxAge_def maxAgeAt_def Canonicalize_def canonCode_def isDigit_def
        parseInt_def digitValue_def)
  have i: "\<not> regexTest ''includeSubDomains'' ''preload; max-age=86400''"
    by (simp add: Canonicalize_def canonCode_def)
  have e4: "parseMaxAge ''preload; max-age=86400'' = parseMaxAge ''max-age=86400''"
    unfolding p parseMaxAge_day ..
  have e5: "regexTest ''includeSubDomains'' ''preload; max-age=86400''
      = regexTest ''includeSubDomains'' ''max-age=86400''"
    using i includeSubDomains_day by blast
  note t = preload_not_in_classification [of "respond (hstsResponse v)" "''example.com''"
      "hstsResponse v" v "respond (hstsResponse w)" "''example.org''" "hstsResponse w" w for v w,
      OF respond_resolves hstsResponse_header _ respond_resolves hstsResponse_header]
  from t [of "''max-age=86400''" "''max-age=86400; preload''", OF n(1) n(2)] a
  have f1: "severity (checkHSTS (respond (hstsResponse ''max-age=86400'')) ''example.com'')
     = severity (checkHSTS (respond (hstsResponse ''max-age=86400; preload'')) ''example.org'')
   \<and> message (checkHSTS (respond (hstsResponse ''max-age=86400'')) ''example.com'')
     = message (checkHSTS (respond (hstsResponse ''max-age=86400; preload'')) ''example.org'')
   \<and> preload (details (checkHSTS (respond (hstsResponse ''max-age=86400; preload''))
        ''example.org''))"
    by blast
  from t [of "''preload; max-age=86400''" "''max-age=86400''", OF n(3) n(1)] e4 e5
  have f2: "status (checkHSTS (respond (hstsResponse ''preload; max-age=86400'')) ''example.com'')
     = status (checkHSTS (respond (hstsResponse ''max-age=86400'')) ''example.org'')"
    by blast
  show ?thesis
    using f1 e4 e5 f2 by blast
qed

text \<open>
  C10 as the claim states it fails in two ways. A \<open>preload\<close> substring inside the digits
  of \<open>max-age\<close> changes the number that is parsed: the values
  \<open>max-age=31536000; includeSubDomains\<close> and \<open>max-age=315preload36000; includeSubDomains\<close>
  differ by the substring only, and the severities are \<open>ok\<close> and \<open>warning\<close>. And the
  value \<open>preload\<close> against the empty value: the empty value counts as a missing header,
  so that the statuses differ.
\<close>

theorem preload_substring_counterexample:
  "severity (checkHSTS (respond (hstsResponse ''max-age=31536000; includeSubDomains''))
      ''example.com'') = ''ok''
   \<and> severity (checkHSTS (respond (hstsResponse ''max-age=315preload36000; includeSubDomains''))
      ''example.com'') = ''warning''
   \<and> maxAge (details (checkHSTS (respond
        (hstsResponse ''max-age=315preload36000; includeSubDomains'')) ''example.com''))
       = Some 315
   \<and> status (checkHSTS (respond (hstsResponse ''preload'')) ''example.com'')
       = ''HSTS Misconfigured''
   \<and> status (checkHSTS (respond (hstsResponse [])) ''example.com'') = ''HSTS Not Enabled''"
proof -
  have p: "parseMaxAge ''max-age=315preload36000; includeSubDomains'' = 315"
    "parseMaxAge ''preload'' = 0"
    by (simp_all add: parseMaxAge_def maxAgeAt_def Canonicalize_def canonCode_def isDigit_def
        parseInt_def digitValue_def)
  have i: "regexTest ''includeSubDomains'' ''max-age=315preload36000; includeSubDomains''"
    by (simp add: Canonicalize_def canonCode_def)
  note t = checkHSTS_present [of "respond (hstsResponse v)" "''example.com''"
      "hstsResponse v" v for v, OF respond_resolves hstsResponse_header]
  have e: "status (checkHSTS (respond (hstsResponse [])) ''example.com'') = ''HSTS Not Enabled''"
    by (simp add: checkHSTS_def respond_def hstsResponse_def)
  show ?thesis
    using t(1,4) [of "''max-age=31536000; includeSubDomains''"]
      t(1,4) [of "''max-age=315preload36000; includeSubDomains''"]
      t(2) [of "''preload''"] e p i parseMaxAge_year includeSubDomains_year
    by (simp add: subDomainsRule_severity subDomainsRule_status maxAgeTier_def)
qed

end
